theory Spec2Isabelle
  imports Main
begin

section \<open>Python values used by the login handler\<close>

text \<open>
  A Python \<open>bytes\<close> object is a list of bytes (\<open>char\<close> is the 8-bit character type, so a
  bytes literal \<open>b"abc"\<close> is the HOL string \<open>''abc''\<close>).  A Python \<open>str\<close> is a list of Unicode
  code points, written as natural numbers; a \<open>str\<close> holds code points below \<open>0x110000\<close>,
  lone surrogates (\<open>0xD800\<close> to \<open>0xDFFF\<close>) included.  The values of HTTP request headers are
  the exception: \<open>http.client.parse_headers\<close> decodes the header block as ISO-8859-1, so a
  header value is a \<open>str\<close> of code points below 256 and is modelled as a HOL \<open>string\<close>, one
  \<open>char\<close> per code point.
\<close>

type_synonym bytes = "char list"
type_synonym pystr = "nat list"

datatype exn = TypeError | ValueError | UnicodeDecodeError | UnicodeEncodeError | IndexError

text \<open>A \<open>str\<close> literal of the source whose characters are all below 256.\<close>

definition ustr :: "string \<Rightarrow> pystr" where
  "ustr cs = map of_char cs"

text \<open>\<open>s.startswith(p)\<close>\<close>

definition startswith :: "'a list \<Rightarrow> 'a list \<Rightarrow> bool" where
  "startswith s p = (take (length p) s = p)"

subsection \<open>\<open>str.encode()\<close>: UTF-8, strict\<close>

text \<open>
  \<open>s.encode()\<close> encodes with UTF-8 and the error handler \<open>strict\<close>: a surrogate code
  point raises \<open>UnicodeEncodeError\<close>.  A number from \<open>0x110000\<close> on is no character of a
  \<open>str\<close>; the model answers with the same error.
\<close>

definition encode_char :: "nat \<Rightarrow> exn + bytes" where
  "encode_char c =
     (if c < 0x80 then Inr [char_of c]
      else if c < 0x800 then Inr [char_of (0xC0 + c div 64), char_of (0x80 + c mod 64)]
      else if 0xD800 \<le> c \<and> c < 0xE000 then Inl UnicodeEncodeError
      else if c < 0x10000 then
        Inr [char_of (0xE0 + c div 4096), char_of (0x80 + c div 64 mod 64),
             char_of (0x80 + c mod 64)]
      else if c < 0x110000 then
        Inr [char_of (0xF0 + c div 262144), char_of (0x80 + c div 4096 mod 64),
             char_of (0x80 + c div 64 mod 64), char_of (0x80 + c mod 64)]
      else Inl UnicodeEncodeError)"

text \<open>The code points \<open>encode\<close> accepts: the Unicode scalar values.\<close>

definition is_scalar :: "nat \<Rightarrow> bool" where
  "is_scalar c = (c < 0xD800 \<or> (0xE000 \<le> c \<and> c < 0x110000))"

fun encode :: "pystr \<Rightarrow> exn + bytes" where
  "encode [] = Inr []"
| "encode (c # cs) =
     (case encode_char c of
        Inl e \<Rightarrow> Inl e
      | Inr b \<Rightarrow> (case encode cs of Inl e \<Rightarrow> Inl e | Inr bs \<Rightarrow> Inr (b @ bs)))"

subsection \<open>\<open>bytes.decode()\<close>: UTF-8, strict or with replacement\<close>

text \<open>
  The decoder walks the bytes once.  \<open>lead_width\<close> is the length of the sequence a first
  byte announces (0 for a byte that cannot start one); \<open>second_ok\<close> is the range of the
  second byte, which is narrower after \<open>E0\<close>, \<open>ED\<close>, \<open>F0\<close> and \<open>F4\<close> (no overlong forms, no
  surrogates, nothing above \<open>0x10FFFF\<close>).  \<open>utf8_scan\<close> yields \<open>Some c\<close> for each decoded code
  point and \<open>None\<close> for each malformed stretch: the bytes read so far that still were the
  start of a well-formed sequence.  The handler \<open>strict\<close> raises at the first \<open>None\<close>; the
  handler \<open>replace\<close> puts \<open>U+FFFD\<close> there.
\<close>

definition lead_width :: "nat \<Rightarrow> nat" where
  "lead_width b =
     (if b < 0x80 then 1
      else if 0xC2 \<le> b \<and> b \<le> 0xDF then 2
      else if 0xE0 \<le> b \<and> b \<le> 0xEF then 3
      else if 0xF0 \<le> b \<and> b \<le> 0xF4 then 4
      else 0)"

definition is_cont :: "nat \<Rightarrow> bool" where
  "is_cont b = (0x80 \<le> b \<and> b \<le> 0xBF)"

definition second_ok :: "nat \<Rightarrow> nat \<Rightarrow> bool" where
  "second_ok b0 b1 =
     (if b0 = 0xE0 then 0xA0 \<le> b1 \<and> b1 \<le> 0xBF
      else if b0 = 0xED then 0x80 \<le> b1 \<and> b1 \<le> 0x9F
      else if b0 = 0xF0 then 0x90 \<le> b1 \<and> b1 \<le> 0xBF
      else if b0 = 0xF4 then 0x80 \<le> b1 \<and> b1 \<le> 0x8F
      else is_cont b1)"

fun utf8_scan :: "nat list \<Rightarrow> nat option list" where
  "utf8_scan [] = []"
| "utf8_scan (b0 # bs) =
     (if lead_width b0 = 1 then Some b0 # utf8_scan bs
      else if lead_width b0 = 0 then None # utf8_scan bs
      else
        (case bs of
           [] \<Rightarrow> [None]
         | b1 # bs1 \<Rightarrow>
             if \<not> second_ok b0 b1 then None # utf8_scan bs
             else if lead_width b0 = 2 then
               Some ((b0 - 0xC0) * 64 + (b1 - 0x80)) # utf8_scan bs1
             else
               (case bs1 of
                  [] \<Rightarrow> [None]
                | b2 # bs2 \<Rightarrow>
                    if \<not> is_cont b2 then None # utf8_scan bs1
                    else if lead_width b0 = 3 then
                      Some ((b0 - 0xE0) * 4096 + (b1 - 0x80) * 64 + (b2 - 0x80)) # utf8_scan bs2
                    else
                      (case bs2 of
                         [] \<Rightarrow> [None]
                       | b3 # bs3 \<Rightarrow>
                           if \<not> is_cont b3 then None # utf8_scan bs2
                           else
                             Some ((b0 - 0xF0) * 262144 + (b1 - 0x80) * 4096
                                   + (b2 - 0x80) * 64 + (b3 - 0x80)) # utf8_scan bs3))))"

text \<open>\<open>b.decode()\<close>\<close>

definition decode :: "bytes \<Rightarrow> exn + pystr" where
  "decode b =
     (case those (utf8_scan (map of_char b)) of
        None \<Rightarrow> Inl UnicodeDecodeError
      | Some s \<Rightarrow> Inr s)"

text \<open>\<open>b.decode('utf-8', 'replace')\<close>\<close>

definition decode_replace :: "bytes \<Rightarrow> pystr" where
  "decode_replace b = map (\<lambda>x. case x of None \<Rightarrow> 0xFFFD | Some c \<Rightarrow> c) (utf8_scan (map of_char b))"

subsection \<open>\<open>base64.b64encode\<close>\<close>

text \<open>
  The standard alphabet with padding (RFC 4648, section 4): three bytes become four
  characters of six bits each; a last group of one or two bytes is filled with zero bits
  and padded with \<open>=\<close>.
\<close>

definition b64_table :: bytes where
  "b64_table = ''ABCDEFGHIJKLMNOPQRSTUVWXYZabcdefghijklmnopqrstuvwxyz0123456789+/''"

fun b64encode :: "bytes \<Rightarrow> bytes" where
  "b64encode [] = []"
| "b64encode [a] =
     [b64_table ! (of_char a div 4), b64_table ! (of_char a mod 4 * 16), CHR ''='', CHR ''='']"
| "b64encode [a, b] =
     [b64_table ! (of_char a div 4),
      b64_table ! (of_char a mod 4 * 16 + of_char b div 16),
      b64_table ! (of_char b mod 16 * 4), CHR ''='']"
| "b64encode (a # b # c # rest) =
     [b64_table ! (of_char a div 4),
      b64_table ! (of_char a mod 4 * 16 + of_char b div 16),
      b64_table ! (of_char b mod 16 * 4 + of_char c div 64),
      b64_table ! (of_char c mod 64)] @ b64encode rest"

text \<open>
  The decoder of the same RFC, which the receiver of the headers applies: groups of four
  characters, padding only in the last group, every other character from the alphabet.
  \<open>None\<close> is a malformed input.
\<close>

fun index_of :: "'a \<Rightarrow> 'a list \<Rightarrow> nat option" where
  "index_of x [] = None"
| "index_of x (y # ys) = (if x = y then Some 0 else map_option Suc (index_of x ys))"

definition b64_value :: "nat \<Rightarrow> nat option" where
  "b64_value c = (if c < 256 then index_of (char_of c) b64_table else None)"

fun b64decode :: "pystr \<Rightarrow> bytes option" where
  "b64decode [] = Some []"
| "b64decode (c0 # c1 # c2 # c3 # rest) =
     (case (b64_value c0, b64_value c1) of
        (Some v0, Some v1) \<Rightarrow>
          if c3 = of_char CHR ''='' then
            (if rest \<noteq> [] then None
             else if c2 = of_char CHR ''='' then Some [char_of (v0 * 4 + v1 div 16)]
             else (case b64_value c2 of
                     Some v2 \<Rightarrow>
                       Some [char_of (v0 * 4 + v1 div 16), char_of (v1 mod 16 * 16 + v2 div 4)]
                   | None \<Rightarrow> None))
          else
            (case (b64_value c2, b64_value c3, b64decode rest) of
               (Some v2, Some v3, Some bs) \<Rightarrow>
                 Some (char_of (v0 * 4 + v1 div 16) # char_of (v1 mod 16 * 16 + v2 div 4)
                       # char_of (v2 mod 4 * 64 + v3) # bs)
             | _ \<Rightarrow> None)
      | _ \<Rightarrow> None)"
| "b64decode _ = None"

subsection \<open>\<open>int(s)\<close> on a header value\<close>

text \<open>
  \<open>int\<close> skips white space at both ends, takes one optional sign and then decimal digits,
  where single underscores may stand between two digits; anything else raises
  \<open>ValueError\<close>, and so does a literal of more than 4300 digits (the interpreter's default
  limit).  On a \<open>str\<close> of code points below 256 the white space is tab, line feed, vertical
  tab, form feed, carriage return, space, \<open>0x85\<close> and \<open>0xA0\<close>, and the digits are \<open>0\<close> to \<open>9\<close>.
\<close>

definition is_space :: "char \<Rightarrow> bool" where
  "is_space c = ((of_char c :: nat) \<in> {9, 10, 11, 12, 13, 32, 0x85, 0xA0})"

definition is_digit :: "char \<Rightarrow> bool" where
  "is_digit c = (48 \<le> (of_char c :: nat) \<and> (of_char c :: nat) \<le> 57)"

fun well_grouped :: "string \<Rightarrow> bool" where
  "well_grouped [] = False"
| "well_grouped [c] = is_digit c"
| "well_grouped (c # d # r) =
     (is_digit c \<and> (if d = CHR ''_'' then well_grouped r else well_grouped (d # r)))"

definition digits_value :: "string \<Rightarrow> nat" where
  "digits_value ds = foldl (\<lambda>acc c. 10 * acc + (of_char c - 48)) 0 ds"

definition int_max_str_digits :: nat where
  "int_max_str_digits = 4300"

definition py_int :: "string \<Rightarrow> exn + int" where
  "py_int s =
     (let s1 = dropWhile is_space s;
          neg = (take 1 s1 = ''-'');
          s2 = (if take 1 s1 = ''-'' \<or> take 1 s1 = ''+'' then drop 1 s1 else s1);
          body = takeWhile (\<lambda>c. is_digit c \<or> c = CHR ''_'') s2;
          rest = dropWhile (\<lambda>c. is_digit c \<or> c = CHR ''_'') s2;
          ds = filter is_digit body
      in if \<not> well_grouped body \<or> dropWhile is_space rest \<noteq> []
            \<or> int_max_str_digits < length ds
         then Inl ValueError
         else Inr (if neg then - int (digits_value ds) else int (digits_value ds)))"

subsection \<open>\<open>self.rfile.read(length)\<close>\<close>

text \<open>
  \<open>rfile\<close> is a buffered reader on the connection.  The model holds the bytes the client
  sends after the header block before it stops sending; \<open>read(n)\<close> returns the first \<open>n\<close> of
  them (fewer when there are fewer), \<open>read(-1)\<close> all of them, and a length below \<open>-1\<close>
  raises \<open>ValueError\<close>.
\<close>

definition rfile_read :: "bytes \<Rightarrow> int \<Rightarrow> exn + bytes" where
  "rfile_read stream n =
     (if n < - 1 then Inl ValueError
      else if n = - 1 then Inr stream
      else Inr (take (nat n) stream))"

subsection \<open>\<open>urllib.parse.parse_qs\<close>\<close>

text \<open>\<open>s.split(sep)\<close> for a separator of one character: never an empty list.\<close>

fun split_on :: "'a \<Rightarrow> 'a list \<Rightarrow> 'a list list" where
  "split_on sep [] = [[]]"
| "split_on sep (c # cs) =
     (if c = sep then [] # split_on sep cs
      else (case split_on sep cs of
              [] \<Rightarrow> [[c]]
            | w # ws \<Rightarrow> (c # w) # ws))"

text \<open>\<open>s.partition(sep)\<close>: the text before the first separator, whether there is one, the text after it.\<close>

definition py_partition :: "'a \<Rightarrow> 'a list \<Rightarrow> 'a list \<times> bool \<times> 'a list" where
  "py_partition sep s =
     (takeWhile (\<lambda>c. c \<noteq> sep) s, sep \<in> set s, drop 1 (dropWhile (\<lambda>c. c \<noteq> sep) s))"

text \<open>
  \<open>unquote_to_bytes\<close>, after it has encoded its argument: the bytes are split at \<open>%\<close>; a
  piece that starts with two hexadecimal digits gives the byte they denote and the rest of
  the piece, any other piece keeps its \<open>%\<close>.
\<close>

definition hex_value :: "char \<Rightarrow> nat option" where
  "hex_value c =
     (let n = (of_char c :: nat)
      in if 48 \<le> n \<and> n \<le> 57 then Some (n - 48)
         else if 65 \<le> n \<and> n \<le> 70 then Some (n - 55)
         else if 97 \<le> n \<and> n \<le> 102 then Some (n - 87)
         else None)"

definition unquote_item :: "bytes \<Rightarrow> bytes" where
  "unquote_item item =
     (case item of
        a # b # r \<Rightarrow>
          (case (hex_value a, hex_value b) of
             (Some x, Some y) \<Rightarrow> char_of (16 * x + y) # r
           | _ \<Rightarrow> CHR ''%'' # item)
      | _ \<Rightarrow> CHR ''%'' # item)"

definition unquote_to_bytes :: "bytes \<Rightarrow> bytes" where
  "unquote_to_bytes string =
     (case split_on CHR ''%'' string of
        [] \<Rightarrow> []
      | first # items \<Rightarrow> first @ concat (map unquote_item items))"

text \<open>
  \<open>unquote\<close> returns a string without \<open>%\<close> as it is.  Otherwise it cuts the string into
  runs of ASCII characters (the pattern \<open>[\x00-\x7f]+\<close>) and the characters between them: each
  run goes through \<open>unquote_to_bytes\<close> (its UTF-8 encoding is its code points) and is
  decoded as UTF-8 with \<open>errors='replace'\<close>; the characters between the runs stay.
\<close>

function unquote_runs :: "pystr \<Rightarrow> pystr" where
  "unquote_runs [] = []"
| "unquote_runs (c # cs) =
     (if c < 128 then
        decode_replace (unquote_to_bytes (map char_of (c # takeWhile (\<lambda>x. x < 128) cs)))
        @ unquote_runs (dropWhile (\<lambda>x. x < 128) cs)
      else c # unquote_runs cs)"
  by pat_completeness auto
termination
  by (relation "measure length") (auto simp: length_dropWhile_le less_Suc_eq_le)

definition unquote :: "pystr \<Rightarrow> pystr" where
  "unquote string = (if of_char CHR ''%'' \<notin> set string then string else unquote_runs string)"

text \<open>\<open>unquote_plus(s) = unquote(s.replace('+', ' '))\<close>\<close>

definition unquote_plus :: "pystr \<Rightarrow> pystr" where
  "unquote_plus string =
     unquote (map (\<lambda>c. if c = of_char CHR ''+'' then of_char CHR '' '' else c) string)"

text \<open>
  \<open>parse_qsl\<close> with its defaults (\<open>keep_blank_values=False\<close>, \<open>strict_parsing=False\<close>,
  \<open>separator='&'\<close>): an empty piece is skipped, and so is a piece whose value, the text
  after its first \<open>=\<close>, is empty.
\<close>

fun parse_qsl_loop :: "pystr list \<Rightarrow> (pystr \<times> pystr) list" where
  "parse_qsl_loop [] = []"
| "parse_qsl_loop (name_value # rest) =
     (if name_value \<noteq> [] then
        (case py_partition (of_char CHR ''='') name_value of
           (name, has_eq, value) \<Rightarrow>
             if value \<noteq> [] then (unquote_plus name, unquote_plus value) # parse_qsl_loop rest
             else parse_qsl_loop rest)
      else parse_qsl_loop rest)"

definition parse_qsl :: "pystr \<Rightarrow> (pystr \<times> pystr) list" where
  "parse_qsl qs = (if qs = [] then [] else parse_qsl_loop (split_on (of_char CHR ''&'') qs))"

text \<open>\<open>parse_qs\<close> collects the values of each name in a dictionary, in the order they come.\<close>

fun parse_qs_loop ::
  "(pystr \<rightharpoonup> pystr list) \<Rightarrow> (pystr \<times> pystr) list \<Rightarrow> (pystr \<rightharpoonup> pystr list)" where
  "parse_qs_loop parsed_result [] = parsed_result"
| "parse_qs_loop parsed_result ((name, value) # pairs) =
     parse_qs_loop
       (case parsed_result name of
          Some vs \<Rightarrow> parsed_result(name \<mapsto> vs @ [value])
        | None \<Rightarrow> parsed_result(name \<mapsto> [value]))
       pairs"

definition parse_qs :: "pystr \<Rightarrow> (pystr \<rightharpoonup> pystr list)" where
  "parse_qs qs = parse_qs_loop Map.empty (parse_qsl qs)"

section \<open>The login handler\<close>

subsection \<open>The user table and \<open>check_login\<close>\<close>

text \<open>
  \<open>DUMMY_USERS\<close> is a dictionary literal with three distinct keys; each value is the list
  of a display name and a roles string.  The display name of \<open>augustus\<close> has the letter
  \<open>U+00E4\<close>.
\<close>

definition DUMMY_USERS :: "(pystr \<times> pystr \<times> pystr) list" where
  "DUMMY_USERS =
     [(ustr ''admin'',
       ustr ''Administrator'',
       ustr ''ROLE_ADMIN, ROLE_USER_ADMIN, ROLE_ANONYMOUS, ROLE_USER, ROLE_SUDO''),
      (ustr ''sabine'',
       ustr ''Sabine Rudolfs'',
       ustr ''ROLE_USER_SABINE, ROLE_ANONYMOUS, ROLE_USER, ROLE_INSTRUCTOR, ROLE_TOBIRA_MODERATOR''),
      (ustr ''augustus'',
       ustr ''Augustus Pagenk'' @ [0xE4] @ ustr ''mper'',
       ustr ''ROLE_USER_AUGUSTUS, ROLE_ANONYMOUS, ROLE_USER, ROLE_STUDENT'')]"

definition check_login :: "pystr \<Rightarrow> pystr \<Rightarrow> (pystr \<times> pystr \<times> pystr) option" where
  "check_login userid password =
     (if password = ustr ''tobira'' \<and> map_of DUMMY_USERS userid \<noteq> None then
        (case map_of DUMMY_USERS userid of
           Some (display_name, roles) \<Rightarrow> Some (userid, display_name, roles)
         | None \<Rightarrow> None)
      else None)"

definition USERID_FIELD :: pystr where
  "USERID_FIELD = ustr ''userid''"

definition PASSWORD_FIELD :: pystr where
  "PASSWORD_FIELD = ustr ''password''"

subsection \<open>Requests and the effects of the handler\<close>

text \<open>
  A request, as \<open>do_POST\<close> sees it: the values of the two headers it looks up (\<open>None\<close> for a
  header the request does not have) and the bytes that follow the header block.  What the
  handler does is the list of its calls with an effect, in order: reading from \<open>rfile\<close>
  (with the bytes read), \<open>print\<close>, \<open>send_response\<close>, \<open>send_header\<close> and \<open>end_headers\<close>;
  it never writes a body.  An exception that leaves \<open>do_POST\<close> is the second component of
  the result.
\<close>

record request =
  content_type :: "string option"
  content_length :: "string option"
  rfile :: bytes

datatype HTTPStatus = NO_CONTENT | BAD_REQUEST | FORBIDDEN

fun status_code :: "HTTPStatus \<Rightarrow> nat" where
  "status_code NO_CONTENT = 204"
| "status_code BAD_REQUEST = 400"
| "status_code FORBIDDEN = 403"

datatype event =
    Rfile_read bytes
  | Print pystr
  | Send_response HTTPStatus
  | Send_header pystr pystr
  | End_headers

text \<open>\<open>b64 = lambda s: base64.b64encode(s.encode()).decode()\<close>\<close>

definition b64 :: "pystr \<Rightarrow> exn + pystr" where
  "b64 s = (case encode s of Inl e \<Rightarrow> Inl e | Inr b \<Rightarrow> decode (b64encode b))"

text \<open>
  The body of \<open>do_POST\<close> in three parts.  \<open>read_vars\<close> is the reading and parsing of the
  body: \<open>int(self.headers["content-length"])\<close>, where a missing header is \<open>int(None)\<close> and
  raises \<open>TypeError\<close>, then \<open>self.rfile.read(length)\<close>, \<open>body.decode()\<close> and \<open>parse_qs\<close>.
\<close>

definition read_vars :: "request \<Rightarrow> event list \<times> (exn + (pystr \<rightharpoonup> pystr list))" where
  "read_vars req =
     (case content_length req of
        None \<Rightarrow> ([], Inl TypeError)
      | Some v \<Rightarrow>
          (case py_int v of
             Inl e \<Rightarrow> ([], Inl e)
           | Inr length' \<Rightarrow>
               (case rfile_read (rfile req) length' of
                  Inl e \<Rightarrow> ([], Inl e)
                | Inr body \<Rightarrow>
                    (case decode body of
                       Inl e \<Rightarrow> ([Rfile_read body], Inl e)
                     | Inr text \<Rightarrow> ([Rfile_read body], Inr (parse_qs text))))))"

text \<open>
  \<open>reply\<close> is the end of \<open>do_POST\<close>, from \<open>check_login\<close> on.  The headers are sent one by
  one, each after its value has been encoded, so an exception of \<open>b64\<close> leaves the calls
  made before it.
\<close>

definition reply :: "pystr \<Rightarrow> pystr \<Rightarrow> event list \<times> exn option" where
  "reply userid password =
     (case check_login userid password of
        None \<Rightarrow>
          ([Print (ustr ''Incorrect login '' @ userid @ ustr '':'' @ password),
            Send_response FORBIDDEN,
            End_headers], None)
      | Some (username, display_name, roles) \<Rightarrow>
          (let start =
                 [Print (ustr ''Successful login of '' @ username @ ustr '' ('' @ display_name
                         @ ustr ''): '' @ roles),
                  Send_response NO_CONTENT]
           in case b64 username of
                Inl e \<Rightarrow> (start, Some e)
              | Inr h1 \<Rightarrow>
                  (case b64 display_name of
                     Inl e \<Rightarrow> (start @ [Send_header (ustr ''x-tobira-username'') h1], Some e)
                   | Inr h2 \<Rightarrow>
                       (case b64 roles of
                          Inl e \<Rightarrow>
                            (start @ [Send_header (ustr ''x-tobira-username'') h1,
                                      Send_header (ustr ''x-tobira-user-display-name'') h2],
                             Some e)
                        | Inr h3 \<Rightarrow>
                            (start @ [Send_header (ustr ''x-tobira-username'') h1,
                                      Send_header (ustr ''x-tobira-user-display-name'') h2,
                                      Send_header (ustr ''x-tobira-user-roles'') h3,
                                      Send_header (ustr ''x-accel-redirect'')
                                        (ustr ''/~successful-login''),
                                      End_headers], None)))))"

text \<open>
  \<open>do_POST\<close>: the check of the content type, the check that both fields are there, and
  the first value of each (\<open>vars[USERID_FIELD][0]\<close>, which raises \<open>IndexError\<close> on an empty
  list).
\<close>

definition do_POST :: "request \<Rightarrow> event list \<times> exn option" where
  "do_POST req =
     (if (case content_type req of
            None \<Rightarrow> True
          | Some ct \<Rightarrow> \<not> startswith ct ''application/x-www-form-urlencoded'')
      then ([Send_response BAD_REQUEST, End_headers], None)
      else
        (case read_vars req of
           (evs, Inl e) \<Rightarrow> (evs, Some e)
         | (evs, Inr vars) \<Rightarrow>
             if \<not> (vars USERID_FIELD \<noteq> None \<and> vars PASSWORD_FIELD \<noteq> None)
             then (evs @ [Send_response BAD_REQUEST, End_headers], None)
             else
               (case (vars USERID_FIELD, vars PASSWORD_FIELD) of
                  (Some (userid # _), Some (password # _)) \<Rightarrow>
                    (case reply userid password of (evs', r) \<Rightarrow> (evs @ evs', r))
                | _ \<Rightarrow> (evs, Some IndexError))))"

text \<open>What a run printed, and the status lines it sent.\<close>

fun printed :: "event list \<Rightarrow> pystr list" where
  "printed [] = []"
| "printed (Print s # evs) = s # printed evs"
| "printed (_ # evs) = printed evs"

fun statuses :: "event list \<Rightarrow> nat list" where
  "statuses [] = []"
| "statuses (Send_response st # evs) = status_code st # statuses evs"
| "statuses (_ # evs) = statuses evs"

section \<open>Properties of the library functions\<close>

subsection \<open>Base64: decoding undoes encoding\<close>

lemma of_char_lt_256: "(of_char c :: nat) < 256"
  by (metis of_char_mod_256 mod_less_divisor zero_less_numeral)

lemma index_of_nth:
  "distinct xs \<Longrightarrow> i < length xs \<Longrightarrow> index_of (xs ! i) xs = Some i"
proof (induction xs arbitrary: i)
  case Nil
  then show ?case by simp
next
  case (Cons x xs)
  show ?case
  proof (cases i)
    case 0
    then show ?thesis by simp
  next
    case (Suc j)
    with Cons.prems have "j < length xs" "xs ! j \<noteq> x" "distinct xs" by auto
    with Cons.IH [of j] Suc show ?thesis by simp
  qed
qed

lemma b64_table_length: "length b64_table = 64"
  by (simp add: b64_table_def)

lemma b64_table_distinct: "distinct b64_table"
  by (simp add: b64_table_def)

lemma b64_table_ascii: "c \<in> set b64_table \<Longrightarrow> (of_char c :: nat) < 128 \<and> c \<noteq> CHR ''=''"
  by (auto simp: b64_table_def)

lemma b64_value_table:
  assumes "i < 64"
  shows "b64_value (of_char (b64_table ! i)) = Some i"
  using assms index_of_nth [OF b64_table_distinct, of i]
  by (simp add: b64_value_def of_char_lt_256 b64_table_length)

lemma b64_table_not_pad:
  assumes "i < 64"
  shows "(of_char (b64_table ! i) :: nat) \<noteq> 61"
proof
  assume eq: "(of_char (b64_table ! i) :: nat) = 61"
  have "(of_char CHR ''='' :: nat) = 61" by simp
  with eq have "(of_char (b64_table ! i) :: nat) = of_char CHR ''=''" by simp
  then have "b64_table ! i = CHR ''=''" by (rule of_char_eqI)
  moreover have "b64_table ! i \<in> set b64_table" using assms by (simp add: b64_table_length)
  ultimately show False using b64_table_ascii by metis
qed

lemma b64_table_nth_ascii:
  assumes "i < 64"
  shows "(of_char (b64_table ! i) :: nat) < 128"
  using assms b64_table_ascii [of "b64_table ! i"] by (simp add: b64_table_length)

lemma sextet_bounds:
  fixes x y z :: nat
  assumes "x < 256" "y < 256" "z < 256"
  shows "x div 4 < 64" "x mod 4 * 16 < 64" "x mod 4 * 16 + y div 16 < 64"
    "y mod 16 * 4 < 64" "y mod 16 * 4 + z div 64 < 64" "z mod 64 < 64"
  using assms by auto

lemma sextet_join:
  fixes x y z :: nat
  assumes "x < 256" "y < 256" "z < 256"
  shows "x div 4 * 4 + (x mod 4 * 16) div 16 = x"
    "x div 4 * 4 + (x mod 4 * 16 + y div 16) div 16 = x"
    "(x mod 4 * 16 + y div 16) mod 16 * 16 + (y mod 16 * 4) div 4 = y"
    "(x mod 4 * 16 + y div 16) mod 16 * 16 + (y mod 16 * 4 + z div 64) div 4 = y"
    "(y mod 16 * 4 + z div 64) mod 4 * 64 + z mod 64 = z"
proof -
  have y16: "y div 16 < 16" and z64: "z div 64 < 4" using assms by simp_all
  show "x div 4 * 4 + (x mod 4 * 16) div 16 = x" by simp
  show "x div 4 * 4 + (x mod 4 * 16 + y div 16) div 16 = x"
    using y16 by simp
  show "(x mod 4 * 16 + y div 16) mod 16 * 16 + (y mod 16 * 4) div 4 = y"
    using y16 by simp
  show "(x mod 4 * 16 + y div 16) mod 16 * 16 + (y mod 16 * 4 + z div 64) div 4 = y"
    using y16 z64 by simp
  show "(y mod 16 * 4 + z div 64) mod 4 * 64 + z mod 64 = z"
    using z64 by simp
qed

lemma b64decode_b64encode: "b64decode (map of_char (b64encode b)) = Some b"
proof (induction b rule: b64encode.induct)
  case 1
  then show ?case by simp
next
  case (2 a)
  show ?case
    using sextet_bounds [OF of_char_lt_256 [of a] of_char_lt_256 [of a] of_char_lt_256 [of a]]
      sextet_join [OF of_char_lt_256 [of a] of_char_lt_256 [of a] of_char_lt_256 [of a]]
    by (simp add: b64_value_table)
next
  case (3 a b)
  show ?case
    using sextet_bounds [OF of_char_lt_256 [of a] of_char_lt_256 [of b] of_char_lt_256 [of b]]
      sextet_join [OF of_char_lt_256 [of a] of_char_lt_256 [of b] of_char_lt_256 [of b]]
    by (simp add: b64_value_table b64_table_not_pad)
next
  case (4 a b c rest)
  show ?case
    using sextet_bounds [OF of_char_lt_256 [of a] of_char_lt_256 [of b] of_char_lt_256 [of c]]
      sextet_join [OF of_char_lt_256 [of a] of_char_lt_256 [of b] of_char_lt_256 [of c]]
      "4.IH"
    by (simp add: b64_value_table b64_table_not_pad)
qed

subsection \<open>The header encoder \<open>b64\<close>\<close>

lemma encode_char_scalar: "is_scalar c \<Longrightarrow> \<exists>b. encode_char c = Inr b"
  by (auto simp: is_scalar_def encode_char_def)

lemma encode_scalar: "\<forall>c\<in>set s. is_scalar c \<Longrightarrow> \<exists>b. encode s = Inr b"
proof (induction s)
  case Nil
  then show ?case by simp
next
  case (Cons c s)
  then obtain b bs where "encode_char c = Inr b" "encode s = Inr bs"
    using encode_char_scalar [of c] by auto
  then show ?case by simp
qed

lemma utf8_scan_ascii: "\<forall>n\<in>set ns. n < 128 \<Longrightarrow> utf8_scan ns = map Some ns"
  by (induction ns) (simp_all add: lead_width_def)

lemma those_map_Some: "those (map Some xs) = Some xs"
  by (induction xs) simp_all

lemma decode_ascii:
  assumes "\<forall>c\<in>set b. (of_char c :: nat) < 128"
  shows "decode b = Inr (map of_char b)"
proof -
  have "utf8_scan (map of_char b) = map Some (map of_char b)"
    using assms by (intro utf8_scan_ascii) simp
  then have "those (utf8_scan (map of_char b)) = Some (map of_char b)"
    by (simp only: those_map_Some)
  then show ?thesis by (simp only: decode_def option.case)
qed

lemma b64encode_ascii: "\<forall>c\<in>set (b64encode b). (of_char c :: nat) < 128"
proof (induction b rule: b64encode.induct)
  case 1
  then show ?case by simp
next
  case (2 a)
  show ?case
    using sextet_bounds [OF of_char_lt_256 [of a] of_char_lt_256 [of a] of_char_lt_256 [of a]]
    by (simp add: b64_table_nth_ascii)
next
  case (3 a b)
  show ?case
    using sextet_bounds [OF of_char_lt_256 [of a] of_char_lt_256 [of b] of_char_lt_256 [of b]]
    by (simp add: b64_table_nth_ascii)
next
  case (4 a b c rest)
  show ?case
    using sextet_bounds [OF of_char_lt_256 [of a] of_char_lt_256 [of b] of_char_lt_256 [of c]]
      "4.IH"
    by (simp add: b64_table_nth_ascii)
qed

lemma b64_of_encoded:
  assumes "encode s = Inr b"
  shows "b64 s = Inr (map of_char (b64encode b))"
  using assms decode_ascii [OF b64encode_ascii, of b] by (simp add: b64_def)

lemma b64_scalar:
  assumes "\<forall>c\<in>set s. is_scalar c"
  shows "\<exists>b h. encode s = Inr b \<and> b64 s = Inr h \<and> b64decode h = Some b"
proof -
  from assms obtain b where b: "encode s = Inr b" using encode_scalar by blast
  then have "b64 s = Inr (map of_char (b64encode b))" by (rule b64_of_encoded)
  with b b64decode_b64encode [of b] show ?thesis by blast
qed

subsection \<open>The dictionary of \<open>parse_qs\<close>\<close>

lemma parse_qs_loop_lookup:
  "parse_qs_loop m pairs k =
     (case m k of
        None \<Rightarrow>
          (if map snd (filter (\<lambda>nv. fst nv = k) pairs) = [] then None
           else Some (map snd (filter (\<lambda>nv. fst nv = k) pairs)))
      | Some vs \<Rightarrow> Some (vs @ map snd (filter (\<lambda>nv. fst nv = k) pairs)))"
proof (induction pairs arbitrary: m)
  case Nil
  then show ?case by (simp split: option.splits)
next
  case (Cons nv pairs)
  obtain name "value" where nv: "nv = (name, value)" by (cases nv)
  show ?case
    by (simp add: nv Cons.IH split: option.splits)
qed

lemma parse_qs_lookup:
  "parse_qs qs k =
     (if map snd (filter (\<lambda>nv. fst nv = k) (parse_qsl qs)) = [] then None
      else Some (map snd (filter (\<lambda>nv. fst nv = k) (parse_qsl qs))))"
  by (simp add: parse_qs_def parse_qs_loop_lookup)

lemma map_of_first:
  assumes "map_of pairs k = Some v"
  shows "\<exists>vs. map snd (filter (\<lambda>nv. fst nv = k) pairs) = v # vs"
  using assms by (induction pairs) (auto split: if_splits)

lemma parse_qs_first:
  assumes "map_of (parse_qsl qs) k = Some v"
  shows "\<exists>vs. parse_qs qs k = Some (v # vs)"
  using map_of_first [OF assms] by (auto simp: parse_qs_lookup)

lemma parse_qsl_loop_blank:
  assumes "snd (snd (py_partition (of_char CHR ''='') name_value)) = []"
  shows "parse_qsl_loop (name_value # rest) = parse_qsl_loop rest"
proof (cases "py_partition (of_char CHR ''='') name_value")
  case (fields name has_eq v)
  with assms have "v = []" by simp
  with fields show ?thesis by simp
qed

subsection \<open>Reading the body\<close>

lemma read_vars_events:
  assumes "read_vars req = (evs, Inr vars)"
  shows "\<exists>body. evs = [Rfile_read body]"
  using assms by (auto simp: read_vars_def split: option.splits sum.splits)

lemma if_Inl_eq: "(if C then Inl a else Inr b) = Inl e \<Longrightarrow> e = a"
  by (cases C) simp_all

lemma py_int_error: "py_int v = Inl e \<Longrightarrow> e = ValueError"
  unfolding py_int_def Let_def by (rule if_Inl_eq)

lemma read_vars_ascii:
  assumes "content_length req = Some v"
    and "py_int v = Inr (int (length (rfile req)))"
    and "\<forall>c\<in>set (rfile req). (of_char c :: nat) < 128"
  shows "read_vars req = ([Rfile_read (rfile req)], Inr (parse_qs (ustr (rfile req))))"
  using assms decode_ascii [OF assms(3)]
  by (simp add: read_vars_def rfile_read_def ustr_def)

lemma read_vars_quiet:
  assumes "read_vars req = (evs, x)"
  shows "statuses evs = [] \<and> printed evs = []"
  using assms by (auto simp: read_vars_def split: option.splits sum.splits)

lemma read_vars_decoded:
  assumes "content_length req = Some v"
    and "py_int v = Inr n"
    and "rfile_read (rfile req) n = Inr body"
    and "decode body = Inr text"
  shows "read_vars req = ([Rfile_read body], Inr (parse_qs text))"
  using assms by (simp add: read_vars_def)

lemma form_type_ok:
  "startswith ''application/x-www-form-urlencoded'' ''application/x-www-form-urlencoded''"
  by (simp add: startswith_def)

subsection \<open>The user table\<close>

lemma ustr_eq_iff: "(ustr a = ustr b) = (a = b)"
  unfolding ustr_def by (rule inj_map_eq_map) (rule inj_of_char)

lemma ustr_Nil_iff: "(ustr a = []) = (a = [])"
  by (simp add: ustr_def)

lemma map_of_DUMMY_USERS:
  "map_of DUMMY_USERS u =
     (if u = ustr ''admin'' then
        Some (ustr ''Administrator'',
              ustr ''ROLE_ADMIN, ROLE_USER_ADMIN, ROLE_ANONYMOUS, ROLE_USER, ROLE_SUDO'')
      else if u = ustr ''sabine'' then
        Some (ustr ''Sabine Rudolfs'',
              ustr ''ROLE_USER_SABINE, ROLE_ANONYMOUS, ROLE_USER, ROLE_INSTRUCTOR, ROLE_TOBIRA_MODERATOR'')
      else if u = ustr ''augustus'' then
        Some (ustr ''Augustus Pagenk'' @ [0xE4] @ ustr ''mper'',
              ustr ''ROLE_USER_AUGUSTUS, ROLE_ANONYMOUS, ROLE_USER, ROLE_STUDENT'')
      else None)"
  by (simp add: DUMMY_USERS_def)

lemma table_values_nonempty:
  assumes "map_of DUMMY_USERS u = Some (d, r)"
  shows "d \<noteq> [] \<and> r \<noteq> []"
  using assms by (auto simp: map_of_DUMMY_USERS ustr_Nil_iff split: if_splits)

lemma table_keys:
  "dom (map_of DUMMY_USERS) = {ustr ''admin'', ustr ''sabine'', ustr ''augustus''}"
  by (auto simp: dom_def map_of_DUMMY_USERS split: if_splits)

lemma check_login_None_iff:
  "(check_login u p = None) = (p \<noteq> ustr ''tobira'' \<or> u \<notin> dom (map_of DUMMY_USERS))"
  by (cases "map_of DUMMY_USERS u") (auto simp: check_login_def)

lemma check_login_Some:
  assumes "map_of DUMMY_USERS u = Some (d, r)"
  shows "check_login u (ustr ''tobira'') = Some (u, d, r)"
  using assms by (simp add: check_login_def)

lemma ustr_scalar: "\<forall>c\<in>set (ustr s). is_scalar c"
proof
  fix c assume "c \<in> set (ustr s)"
  then obtain x where "c = of_char x" by (auto simp: ustr_def)
  then have "c < 256" by (simp add: of_char_lt_256)
  then show "is_scalar c" by (simp add: is_scalar_def)
qed

lemma table_scalar:
  assumes "map_of DUMMY_USERS u = Some (d, r)"
  shows "(\<forall>c\<in>set u. is_scalar c) \<and> (\<forall>c\<in>set d. is_scalar c) \<and> (\<forall>c\<in>set r. is_scalar c)"
proof -
  have e4: "is_scalar 0xE4" by (simp add: is_scalar_def)
  have aug: "\<forall>c\<in>set (ustr ''Augustus Pagenk'' @ [0xE4] @ ustr ''mper''). is_scalar c"
    using ustr_scalar e4 by auto
  from assms show ?thesis
    using ustr_scalar aug by (auto simp only: map_of_DUMMY_USERS split: if_splits)
qed

subsection \<open>The reply of the handler\<close>

lemma statuses_append: "statuses (xs @ ys) = statuses xs @ statuses ys"
  by (induction xs rule: statuses.induct) simp_all


lemma reply_rejected:
  assumes "check_login u p = None"
  shows "reply u p =
    ([Print (ustr ''Incorrect login '' @ u @ ustr '':'' @ p), Send_response FORBIDDEN, End_headers],
     None)"
  using assms by (simp add: reply_def)

lemma reply_accepted:
  assumes "map_of DUMMY_USERS u = Some (d, r)"
  shows "\<exists>bu bd br h1 h2 h3.
     encode u = Inr bu \<and> encode d = Inr bd \<and> encode r = Inr br
     \<and> b64decode h1 = Some bu \<and> b64decode h2 = Some bd \<and> b64decode h3 = Some br
     \<and> reply u (ustr ''tobira'') =
       ([Print (ustr ''Successful login of '' @ u @ ustr '' ('' @ d @ ustr ''): '' @ r),
         Send_response NO_CONTENT,
         Send_header (ustr ''x-tobira-username'') h1,
         Send_header (ustr ''x-tobira-user-display-name'') h2,
         Send_header (ustr ''x-tobira-user-roles'') h3,
         Send_header (ustr ''x-accel-redirect'') (ustr ''/~successful-login''),
         End_headers], None)"
proof -
  from table_scalar [OF assms] b64_scalar obtain bu h1 bd h2 br h3 where
    u: "encode u = Inr bu" "b64 u = Inr h1" "b64decode h1 = Some bu" and
    d: "encode d = Inr bd" "b64 d = Inr h2" "b64decode h2 = Some bd" and
    r: "encode r = Inr br" "b64 r = Inr h3" "b64decode h3 = Some br"
    by metis
  have "reply u (ustr ''tobira'') =
       ([Print (ustr ''Successful login of '' @ u @ ustr '' ('' @ d @ ustr ''): '' @ r),
         Send_response NO_CONTENT,
         Send_header (ustr ''x-tobira-username'') h1,
         Send_header (ustr ''x-tobira-user-display-name'') h2,
         Send_header (ustr ''x-tobira-user-roles'') h3,
         Send_header (ustr ''x-accel-redirect'') (ustr ''/~successful-login''),
         End_headers], None)"
    by (simp add: reply_def check_login_Some [OF assms] u d r)
  with u d r show ?thesis by blast
qed

lemma reply_statuses:
  "statuses (fst (reply u p)) = [if check_login u p = None then 403 else 204]"
  by (simp add: reply_def Let_def split: option.splits sum.splits)


lemma do_POST_reply:
  assumes "content_type req = Some ct"
    and "startswith ct ''application/x-www-form-urlencoded''"
    and "read_vars req = (evs, Inr vars)"
    and "vars USERID_FIELD = Some (u # us)"
    and "vars PASSWORD_FIELD = Some (p # ps)"
  shows "do_POST req = (evs @ fst (reply u p), snd (reply u p))"
  using assms by (simp add: do_POST_def split: prod.splits)


section \<open>The claims\<close>

text \<open>
  C3.  A request whose \<open>Content-Type\<close> header is absent, or whose value does not start
  with the exact characters \<open>application/x-www-form-urlencoded\<close>, is answered with
  \<open>400 Bad Request\<close> and nothing else: the handler calls \<open>send_response\<close> and
  \<open>end_headers\<close> only, so it reads no body, looks up no credentials, prints nothing and
  sends no other status.
\<close>

theorem bad_content_type_400:
  assumes "content_type req = None
           \<or> (\<exists>ct. content_type req = Some ct \<and> \<not> startswith ct ''application/x-www-form-urlencoded'')"
  shows "do_POST req = ([Send_response BAD_REQUEST, End_headers], None)
         \<and> status_code BAD_REQUEST = 400"
  using assms by (auto simp: do_POST_def)

theorem bad_content_type_400_witness:
  "do_POST \<lparr>content_type = Some ''Application/X-WWW-Form-Urlencoded'',
            content_length = Some ''28'', rfile = ''userid=admin&password=tobira''\<rparr>
     = ([Send_response BAD_REQUEST, End_headers], None)
   \<and> do_POST \<lparr>content_type = None,
            content_length = Some ''28'', rfile = ''userid=admin&password=tobira''\<rparr>
     = ([Send_response BAD_REQUEST, End_headers], None)"
  using bad_content_type_400 [of "\<lparr>content_type = Some ''Application/X-WWW-Form-Urlencoded'',
            content_length = Some ''28'', rfile = ''userid=admin&password=tobira''\<rparr>"]
    bad_content_type_400 [of "\<lparr>content_type = None,
            content_length = Some ''28'', rfile = ''userid=admin&password=tobira''\<rparr>"]
  by (simp add: startswith_def)

text \<open>
  C4.  A request with a valid content type whose parsed form lacks \<open>userid\<close> or lacks
  \<open>password\<close> is answered with \<open>400 Bad Request\<close>: after the read of the body the handler
  calls \<open>send_response\<close> and \<open>end_headers\<close> only, without the credential check and its
  log line.
\<close>

theorem missing_field_400:
  assumes "content_type req = Some ct"
    and "startswith ct ''application/x-www-form-urlencoded''"
    and "read_vars req = (evs, Inr vars)"
    and "vars USERID_FIELD = None \<or> vars PASSWORD_FIELD = None"
  shows "do_POST req = (evs @ [Send_response BAD_REQUEST, End_headers], None)
         \<and> (\<exists>body. evs = [Rfile_read body])
         \<and> status_code BAD_REQUEST = 400"
  using assms read_vars_events [OF assms(3)] by (auto simp: do_POST_def)

theorem missing_field_400_witness:
  "do_POST \<lparr>content_type = Some ''application/x-www-form-urlencoded'',
            content_length = Some ''12'', rfile = ''userid=admin''\<rparr>
     = ([Rfile_read ''userid=admin'', Send_response BAD_REQUEST, End_headers], None)"
proof -
  let ?req = "\<lparr>content_type = Some ''application/x-www-form-urlencoded'',
                content_length = Some ''12'', rfile = ''userid=admin''\<rparr>"
  have i: "py_int ''12'' = Inr 12" by code_simp
  have d: "decode ''userid=admin'' = Inr (ustr ''userid=admin'')" by code_simp
  have rv: "read_vars ?req = ([Rfile_read ''userid=admin''], Inr (parse_qs (ustr ''userid=admin'')))"
    by (simp add: read_vars_def i d rfile_read_def)
  have pw: "parse_qs (ustr ''userid=admin'') PASSWORD_FIELD = None" by code_simp
  have st: "startswith ''application/x-www-form-urlencoded'' ''application/x-www-form-urlencoded''"
    by (simp add: startswith_def)
  show ?thesis
    using missing_field_400 [of ?req "''application/x-www-form-urlencoded''", OF _ st rv] pw
    by simp
qed

text \<open>
  C10.  When the content type is valid but there is no \<open>Content-Length\<close> header, or
  \<open>int\<close> does not accept its value as a decimal integer, the conversion raises
  (\<open>TypeError\<close> for the missing header, \<open>ValueError\<close> otherwise) before the handler has done
  anything: no response of its own is sent.
\<close>

theorem content_length_unusable_raises:
  assumes "content_type req = Some ct"
    and "startswith ct ''application/x-www-form-urlencoded''"
    and "content_length req = None \<or> (\<exists>v e. content_length req = Some v \<and> py_int v = Inl e)"
  shows "do_POST req = ([], Some (if content_length req = None then TypeError else ValueError))"
  using assms by (auto simp: do_POST_def read_vars_def dest: py_int_error)

theorem content_length_unusable_raises_witness:
  "do_POST \<lparr>content_type = Some ''application/x-www-form-urlencoded'',
            content_length = None, rfile = ''userid=admin&password=tobira''\<rparr>
     = ([], Some TypeError)
   \<and> do_POST \<lparr>content_type = Some ''application/x-www-form-urlencoded'',
            content_length = Some ''twelve'', rfile = ''userid=admin&password=tobira''\<rparr>
     = ([], Some ValueError)"
proof -
  have st: "startswith ''application/x-www-form-urlencoded'' ''application/x-www-form-urlencoded''"
    by (simp add: startswith_def)
  have i: "py_int ''twelve'' = Inl ValueError" by code_simp
  show ?thesis
    using content_length_unusable_raises
        [of "\<lparr>content_type = Some ''application/x-www-form-urlencoded'',
            content_length = None, rfile = ''userid=admin&password=tobira''\<rparr>"
            "''application/x-www-form-urlencoded''", OF _ st]
      content_length_unusable_raises
        [of "\<lparr>content_type = Some ''application/x-www-form-urlencoded'',
            content_length = Some ''twelve'', rfile = ''userid=admin&password=tobira''\<rparr>"
            "''application/x-www-form-urlencoded''", OF _ st] i
    by simp
qed




text \<open>
  C1.  For a request with a valid content type whose parsed body has both fields, with
  first \<open>userid\<close> value \<open>u\<close> and first \<open>password\<close> value \<open>p\<close>: \<open>check_login\<close> accepts, and
  the status sent is 204, if and only if \<open>p\<close> is \<open>tobira\<close> and \<open>u\<close> is a key of
  \<open>DUMMY_USERS\<close>; in every other case the handler prints the failed attempt and sends
  \<open>403 Forbidden\<close> with no header and no body.
\<close>

theorem login_outcome:
  assumes "content_type req = Some ct"
    and "startswith ct ''application/x-www-form-urlencoded''"
    and "read_vars req = (evs, Inr vars)"
    and "vars USERID_FIELD = Some (u # us)"
    and "vars PASSWORD_FIELD = Some (p # ps)"
  shows "((\<exists>d r. check_login u p = Some (u, d, r))
            = (p = ustr ''tobira'' \<and> u \<in> dom (map_of DUMMY_USERS)))
       \<and> ((statuses (fst (do_POST req)) = [204])
            = (p = ustr ''tobira'' \<and> u \<in> dom (map_of DUMMY_USERS)))
       \<and> (\<not> (p = ustr ''tobira'' \<and> u \<in> dom (map_of DUMMY_USERS)) \<longrightarrow>
            do_POST req =
              (evs @ [Print (ustr ''Incorrect login '' @ u @ ustr '':'' @ p),
                      Send_response FORBIDDEN, End_headers], None)
            \<and> status_code FORBIDDEN = 403)"
proof -
  let ?ok = "p = ustr ''tobira'' \<and> u \<in> dom (map_of DUMMY_USERS)"
  have post: "do_POST req = (evs @ fst (reply u p), snd (reply u p))"
    using assms by (rule do_POST_reply)
  have quiet: "statuses evs = []"
    using read_vars_quiet [OF assms(3)] by simp
  have none: "(check_login u p = None) = (\<not> ?ok)"
    by (simp add: check_login_None_iff)
  have a: "(\<exists>d r. check_login u p = Some (u, d, r)) = ?ok"
  proof
    assume "\<exists>d r. check_login u p = Some (u, d, r)"
    then have "check_login u p \<noteq> None" by auto
    with none show ?ok by simp
  next
    assume ok: ?ok
    then obtain d r where "map_of DUMMY_USERS u = Some (d, r)" by (cases "map_of DUMMY_USERS u") auto
    with ok show "\<exists>d r. check_login u p = Some (u, d, r)"
      using check_login_Some by blast
  qed
  have b: "(statuses (fst (do_POST req)) = [204]) = ?ok"
    using none by (simp add: post statuses_append quiet reply_statuses)
  have c: "\<not> ?ok \<longrightarrow>
            do_POST req =
              (evs @ [Print (ustr ''Incorrect login '' @ u @ ustr '':'' @ p),
                      Send_response FORBIDDEN, End_headers], None)
            \<and> status_code FORBIDDEN = 403"
  proof
    assume "\<not> ?ok"
    with none have "check_login u p = None" by simp
    then show "do_POST req =
              (evs @ [Print (ustr ''Incorrect login '' @ u @ ustr '':'' @ p),
                      Send_response FORBIDDEN, End_headers], None)
            \<and> status_code FORBIDDEN = 403"
      by (simp add: post reply_rejected)
  qed
  from a b c show ?thesis by (intro conjI)
qed

theorem login_outcome_witness:
  "statuses (fst (do_POST \<lparr>content_type = Some ''application/x-www-form-urlencoded'',
                           content_length = Some ''28'',
                           rfile = ''userid=admin&password=tobira''\<rparr>)) = [204]
   \<and> do_POST \<lparr>content_type = Some ''application/x-www-form-urlencoded'',
               content_length = Some ''27'',
               rfile = ''userid=admin&password=wrong''\<rparr> =
       ([Rfile_read ''userid=admin&password=wrong'',
         Print (ustr ''Incorrect login '' @ ustr ''admin'' @ ustr '':'' @ ustr ''wrong''),
         Send_response FORBIDDEN, End_headers], None)
   \<and> do_POST \<lparr>content_type = Some ''application/x-www-form-urlencoded'',
               content_length = Some ''28'',
               rfile = ''userid=Admin&password=tobira''\<rparr> =
       ([Rfile_read ''userid=Admin&password=tobira'',
         Print (ustr ''Incorrect login '' @ ustr ''Admin'' @ ustr '':'' @ ustr ''tobira''),
         Send_response FORBIDDEN, End_headers], None)"
proof -
  let ?a = "''userid=admin&password=tobira''"
  let ?b = "''userid=admin&password=wrong''"
  let ?c = "''userid=Admin&password=tobira''"
  let ?ra = "\<lparr>content_type = Some ''application/x-www-form-urlencoded'',
               content_length = Some ''28'', rfile = ?a\<rparr>"
  let ?rb = "\<lparr>content_type = Some ''application/x-www-form-urlencoded'',
               content_length = Some ''27'', rfile = ?b\<rparr>"
  let ?rc = "\<lparr>content_type = Some ''application/x-www-form-urlencoded'',
               content_length = Some ''28'', rfile = ?c\<rparr>"
  have ia: "py_int ''28'' = Inr (int (length ?a))" by code_simp
  have ib: "py_int ''27'' = Inr (int (length ?b))" by code_simp
  have ic: "py_int ''28'' = Inr (int (length ?c))" by code_simp
  have rva: "read_vars ?ra = ([Rfile_read ?a], Inr (parse_qs (ustr ?a)))"
    using read_vars_ascii [of ?ra "''28''"] ia by simp
  have rvb: "read_vars ?rb = ([Rfile_read ?b], Inr (parse_qs (ustr ?b)))"
    using read_vars_ascii [of ?rb "''27''"] ib by simp
  have rvc: "read_vars ?rc = ([Rfile_read ?c], Inr (parse_qs (ustr ?c)))"
    using read_vars_ascii [of ?rc "''28''"] ic by simp
  have ua: "parse_qs (ustr ?a) USERID_FIELD = Some [ustr ''admin'']" by code_simp
  have pa: "parse_qs (ustr ?a) PASSWORD_FIELD = Some [ustr ''tobira'']" by code_simp
  have ub: "parse_qs (ustr ?b) USERID_FIELD = Some [ustr ''admin'']" by code_simp
  have pb: "parse_qs (ustr ?b) PASSWORD_FIELD = Some [ustr ''wrong'']" by code_simp
  have uc: "parse_qs (ustr ?c) USERID_FIELD = Some [ustr ''Admin'']" by code_simp
  have pc: "parse_qs (ustr ?c) PASSWORD_FIELD = Some [ustr ''tobira'']" by code_simp
  have a: "statuses (fst (do_POST ?ra)) = [204]"
    using login_outcome [of ?ra, OF _ form_type_ok rva ua pa]
    by (simp add: table_keys)
  have b: "do_POST ?rb =
       ([Rfile_read ?b,
         Print (ustr ''Incorrect login '' @ ustr ''admin'' @ ustr '':'' @ ustr ''wrong''),
         Send_response FORBIDDEN, End_headers], None)"
    using login_outcome [of ?rb, OF _ form_type_ok rvb ub pb]
    by (simp add: ustr_eq_iff)
  have c: "do_POST ?rc =
       ([Rfile_read ?c,
         Print (ustr ''Incorrect login '' @ ustr ''Admin'' @ ustr '':'' @ ustr ''tobira''),
         Send_response FORBIDDEN, End_headers], None)"
    using login_outcome [of ?rc, OF _ form_type_ok rvc uc pc]
    by (simp add: table_keys ustr_eq_iff)
  from a b c show ?thesis by (intro conjI)
qed






text \<open>
  C8.  Every key of the table maps to a display name and a roles string that are both not
  empty.  The keys are exactly the three strings \<open>admin\<close>, \<open>sabine\<close> and \<open>augustus\<close>,
  compared code point by code point: \<open>check_login\<close> accepts no other user id, and so neither
  \<open>Admin\<close> nor \<open>ADMIN\<close>.
\<close>

theorem table_invariant:
  "(\<forall>u d r. map_of DUMMY_USERS u = Some (d, r) \<longrightarrow> d \<noteq> [] \<and> r \<noteq> [])
   \<and> dom (map_of DUMMY_USERS) = {ustr ''admin'', ustr ''sabine'', ustr ''augustus''}
   \<and> (\<forall>u p. (check_login u p = None)
          = (p \<noteq> ustr ''tobira'' \<or> u \<notin> {ustr ''admin'', ustr ''sabine'', ustr ''augustus''}))
   \<and> check_login (ustr ''Admin'') (ustr ''tobira'') = None
   \<and> check_login (ustr ''ADMIN'') (ustr ''tobira'') = None"
proof -
  have a: "check_login (ustr ''Admin'') (ustr ''tobira'') = None"
    by (simp add: check_login_None_iff table_keys ustr_eq_iff)
  have b: "check_login (ustr ''ADMIN'') (ustr ''tobira'') = None"
    by (simp add: check_login_None_iff table_keys ustr_eq_iff)
  have c: "\<forall>u d r. map_of DUMMY_USERS u = Some (d, r) \<longrightarrow> d \<noteq> [] \<and> r \<noteq> []"
    using table_values_nonempty by blast
  have d: "\<forall>u p. (check_login u p = None)
          = (p \<noteq> ustr ''tobira'' \<or> u \<notin> {ustr ''admin'', ustr ''sabine'', ustr ''augustus''})"
    by (simp only: check_login_None_iff table_keys) simp
  show ?thesis
    by (intro conjI c table_keys d a b)
qed

theorem table_invariant_witness:
  "map_of DUMMY_USERS (ustr ''augustus'')
     = Some (ustr ''Augustus Pagenk'' @ [0xE4] @ ustr ''mper'',
             ustr ''ROLE_USER_AUGUSTUS, ROLE_ANONYMOUS, ROLE_USER, ROLE_STUDENT'')
   \<and> ustr ''Augustus Pagenk'' @ [0xE4] @ ustr ''mper'' \<noteq> []
   \<and> ustr ''ROLE_USER_AUGUSTUS, ROLE_ANONYMOUS, ROLE_USER, ROLE_STUDENT'' \<noteq> []"
proof -
  have m: "map_of DUMMY_USERS (ustr ''augustus'')
     = Some (ustr ''Augustus Pagenk'' @ [0xE4] @ ustr ''mper'',
             ustr ''ROLE_USER_AUGUSTUS, ROLE_ANONYMOUS, ROLE_USER, ROLE_STUDENT'')"
    by (simp add: map_of_DUMMY_USERS ustr_eq_iff)
  from table_invariant have
    "\<forall>u d r. map_of DUMMY_USERS u = Some (d, r) \<longrightarrow> d \<noteq> [] \<and> r \<noteq> []"
    by (rule conjunct1)
  with m show ?thesis by blast
qed

text \<open>
  C5.  The credential check uses the first value of \<open>userid\<close> and the first value of
  \<open>password\<close> in the order of the body, whatever follows them: the reply is the one for
  these two values.  The body \<open>userid=admin&userid=sabine&password=tobira\<close> is answered as
  a login of \<open>admin\<close>.
\<close>

theorem first_value_wins:
  assumes "content_type req = Some ct"
    and "startswith ct ''application/x-www-form-urlencoded''"
    and "content_length req = Some v"
    and "py_int v = Inr n"
    and "rfile_read (rfile req) n = Inr body"
    and "decode body = Inr text"
    and "map_of (parse_qsl text) USERID_FIELD = Some u"
    and "map_of (parse_qsl text) PASSWORD_FIELD = Some p"
  shows "do_POST req = (Rfile_read body # fst (reply u p), snd (reply u p))
     \<and> (\<exists>h1 h2 h3.
          do_POST \<lparr>content_type = Some ''application/x-www-form-urlencoded'',
                   content_length = Some ''42'',
                   rfile = ''userid=admin&userid=sabine&password=tobira''\<rparr> =
            ([Rfile_read ''userid=admin&userid=sabine&password=tobira'',
              Print (ustr ''Successful login of '' @ ustr ''admin'' @ ustr '' (''
                     @ ustr ''Administrator'' @ ustr ''): ''
                     @ ustr ''ROLE_ADMIN, ROLE_USER_ADMIN, ROLE_ANONYMOUS, ROLE_USER, ROLE_SUDO''),
              Send_response NO_CONTENT,
              Send_header (ustr ''x-tobira-username'') h1,
              Send_header (ustr ''x-tobira-user-display-name'') h2,
              Send_header (ustr ''x-tobira-user-roles'') h3,
              Send_header (ustr ''x-accel-redirect'') (ustr ''/~successful-login''),
              End_headers], None)
          \<and> b64decode h1 = Some ''admin'')"
proof -
  have rv: "read_vars req = ([Rfile_read body], Inr (parse_qs text))"
    using assms(3-6) by (rule read_vars_decoded)
  from parse_qs_first [OF assms(7)] parse_qs_first [OF assms(8)] obtain us ps where
    "parse_qs text USERID_FIELD = Some (u # us)" "parse_qs text PASSWORD_FIELD = Some (p # ps)"
    by blast
  with do_POST_reply [OF assms(1,2) rv]
  have general: "do_POST req = (Rfile_read body # fst (reply u p), snd (reply u p))"
    by simp
  let ?body = "''userid=admin&userid=sabine&password=tobira''"
  let ?req = "\<lparr>content_type = Some ''application/x-www-form-urlencoded'',
                content_length = Some ''42'', rfile = ?body\<rparr>"
  have i: "py_int ''42'' = Inr (int (length ?body))" by code_simp
  have rv': "read_vars ?req = ([Rfile_read ?body], Inr (parse_qs (ustr ?body)))"
    using read_vars_ascii [of ?req "''42''"] i by simp
  have u': "parse_qs (ustr ?body) USERID_FIELD = Some [ustr ''admin'', ustr ''sabine'']"
    by code_simp
  have p': "parse_qs (ustr ?body) PASSWORD_FIELD = Some [ustr ''tobira'']"
    by code_simp
  have post: "do_POST ?req =
      ([Rfile_read ?body] @ fst (reply (ustr ''admin'') (ustr ''tobira'')),
       snd (reply (ustr ''admin'') (ustr ''tobira'')))"
    using do_POST_reply [of ?req, OF _ form_type_ok rv' u' p'] by simp
  have tab: "map_of DUMMY_USERS (ustr ''admin'') =
      Some (ustr ''Administrator'',
            ustr ''ROLE_ADMIN, ROLE_USER_ADMIN, ROLE_ANONYMOUS, ROLE_USER, ROLE_SUDO'')"
    by (simp add: map_of_DUMMY_USERS)
  have enc: "encode (ustr ''admin'') = Inr ''admin''" by code_simp
  from reply_accepted [OF tab] obtain h1 h2 h3 where
    "b64decode h1 = Some ''admin''"
    "reply (ustr ''admin'') (ustr ''tobira'') =
       ([Print (ustr ''Successful login of '' @ ustr ''admin'' @ ustr '' (''
                @ ustr ''Administrator'' @ ustr ''): ''
                @ ustr ''ROLE_ADMIN, ROLE_USER_ADMIN, ROLE_ANONYMOUS, ROLE_USER, ROLE_SUDO''),
         Send_response NO_CONTENT,
         Send_header (ustr ''x-tobira-username'') h1,
         Send_header (ustr ''x-tobira-user-display-name'') h2,
         Send_header (ustr ''x-tobira-user-roles'') h3,
         Send_header (ustr ''x-accel-redirect'') (ustr ''/~successful-login''),
         End_headers], None)"
    using enc by auto
  with post have "\<exists>h1 h2 h3.
          do_POST ?req =
            ([Rfile_read ?body,
              Print (ustr ''Successful login of '' @ ustr ''admin'' @ ustr '' (''
                     @ ustr ''Administrator'' @ ustr ''): ''
                     @ ustr ''ROLE_ADMIN, ROLE_USER_ADMIN, ROLE_ANONYMOUS, ROLE_USER, ROLE_SUDO''),
              Send_response NO_CONTENT,
              Send_header (ustr ''x-tobira-username'') h1,
              Send_header (ustr ''x-tobira-user-display-name'') h2,
              Send_header (ustr ''x-tobira-user-roles'') h3,
              Send_header (ustr ''x-accel-redirect'') (ustr ''/~successful-login''),
              End_headers], None)
          \<and> b64decode h1 = Some ''admin''"
    by (intro exI [of _ h1] exI [of _ h2] exI [of _ h3]) simp
  with general show ?thesis by (rule conjI)
qed

theorem first_value_wins_witness:
  "parse_qs (ustr ''userid=admin&userid=sabine&password=tobira'') USERID_FIELD
     = Some [ustr ''admin'', ustr ''sabine'']
   \<and> do_POST \<lparr>content_type = Some ''application/x-www-form-urlencoded'',
               content_length = Some ''42'',
               rfile = ''userid=admin&userid=sabine&password=tobira''\<rparr> =
       (Rfile_read ''userid=admin&userid=sabine&password=tobira''
          # fst (reply (ustr ''admin'') (ustr ''tobira'')),
        snd (reply (ustr ''admin'') (ustr ''tobira'')))"
proof -
  let ?body = "''userid=admin&userid=sabine&password=tobira''"
  let ?req = "\<lparr>content_type = Some ''application/x-www-form-urlencoded'',
                content_length = Some ''42'', rfile = ?body\<rparr>"
  have i: "py_int ''42'' = Inr 42" by code_simp
  have r: "rfile_read (rfile ?req) 42 = Inr ?body" by (simp add: rfile_read_def)
  have d: "decode ?body = Inr (ustr ?body)" by code_simp
  have u: "map_of (parse_qsl (ustr ?body)) USERID_FIELD = Some (ustr ''admin'')" by code_simp
  have p: "map_of (parse_qsl (ustr ?body)) PASSWORD_FIELD = Some (ustr ''tobira'')" by code_simp
  have vs: "parse_qs (ustr ?body) USERID_FIELD = Some [ustr ''admin'', ustr ''sabine'']"
    by code_simp
  have "do_POST ?req =
       (Rfile_read ?body # fst (reply (ustr ''admin'') (ustr ''tobira'')),
        snd (reply (ustr ''admin'') (ustr ''tobira'')))"
    using first_value_wins [of ?req "''application/x-www-form-urlencoded''" "''42''" 42 ?body
        "ustr ?body" "ustr ''admin''" "ustr ''tobira''", OF _ form_type_ok _ i r d u p]
    by simp
  with vs show ?thesis by (rule conjI)
qed

text \<open>
  C9.  A piece of the body whose value, the text after its first \<open>=\<close>, is empty is
  dropped by \<open>parse_qsl\<close>, so its name is missing from the dictionary: the body
  \<open>userid=&password=tobira\<close> has no \<open>userid\<close> and is answered with \<open>400 Bad Request\<close>, not
  with 403.
\<close>

theorem blank_value_is_missing:
  assumes "snd (snd (py_partition (of_char CHR ''='') name_value)) = []"
  shows "parse_qsl_loop (name_value # rest) = parse_qsl_loop rest
     \<and> parse_qs (ustr ''userid=&password=tobira'') USERID_FIELD = None
     \<and> do_POST \<lparr>content_type = Some ''application/x-www-form-urlencoded'',
                 content_length = Some ''23'',
                 rfile = ''userid=&password=tobira''\<rparr> =
         ([Rfile_read ''userid=&password=tobira'', Send_response BAD_REQUEST, End_headers],
          None)
     \<and> status_code BAD_REQUEST = 400"
proof -
  let ?body = "''userid=&password=tobira''"
  let ?req = "\<lparr>content_type = Some ''application/x-www-form-urlencoded'',
                content_length = Some ''23'', rfile = ?body\<rparr>"
  have a: "parse_qsl_loop (name_value # rest) = parse_qsl_loop rest"
    using assms by (rule parse_qsl_loop_blank)
  have b: "parse_qs (ustr ?body) USERID_FIELD = None" by code_simp
  have i: "py_int ''23'' = Inr (int (length ?body))" by code_simp
  have rv: "read_vars ?req = ([Rfile_read ?body], Inr (parse_qs (ustr ?body)))"
    using read_vars_ascii [of ?req "''23''"] i by simp
  have c: "do_POST ?req = ([Rfile_read ?body, Send_response BAD_REQUEST, End_headers], None)"
    using rv b form_type_ok by (simp add: do_POST_def)
  from a b c show ?thesis by simp
qed

theorem blank_value_is_missing_witness:
  "snd (snd (py_partition (of_char CHR ''='') (ustr ''userid=''))) = []
   \<and> parse_qsl_loop [ustr ''userid='', ustr ''password=tobira'']
       = parse_qsl_loop [ustr ''password=tobira'']"
proof -
  have h: "snd (snd (py_partition (of_char CHR ''='') (ustr ''userid=''))) = []"
    by (simp add: py_partition_def ustr_def)
  from blank_value_is_missing [OF h, of "[ustr ''password=tobira'']"]
  have "parse_qsl_loop [ustr ''userid='', ustr ''password=tobira'']
       = parse_qsl_loop [ustr ''password=tobira'']"
    by (rule conjunct1)
  with h show ?thesis by (rule conjI)
qed

end
